theory Spec2Isabelle
  imports Complex_Main
begin

section \<open>Production middleware of opta (src/opta/middleware.py)\<close>

text \<open>
  The embedding follows the module class by class. Python ints are \<^typ>\<open>int\<close>. A
  Python float is the \<^typ>\<open>real\<close> number it stands for. Where the rounding or the range
  of double arithmetic can decide a result (the caps and the wait time of the rate
  limiter, the retry delay), the outcome of the arithmetic is a parameter of the model
  and not computed over the reals; the breaker compares a difference of two clock
  readings, which is exact. Every method body runs
  under the object's lock, so each method is one atomic state transformer: it takes the
  object and returns the result together with the updated object. A call of
  \<^verbatim>\<open>time.time()\<close> is the argument \<open>now\<close> of the method that makes it.
\<close>

subsection \<open>Configuration objects\<close>

text \<open>The double that the literal \<^verbatim>\<open>0.1\<close> denotes.\<close>

definition double_0_1 :: real where
  "double_0_1 = 3602879701896397 / 36028797018963968"

datatype CircuitState = CLOSED | OPEN | HALF_OPEN

record CircuitBreakerConfig =
  failure_threshold :: int
  recovery_timeout :: real
  half_open_max_calls :: int
  success_threshold :: int

record RateLimiterConfig =
  requests_per_minute :: int
  tokens_per_minute :: int
  burst_allowance :: real

record RetryConfig =
  max_retries :: int
  base_delay :: real
  max_delay :: real
  exponential_base :: real
  jitter :: real

record MiddlewareConfig =
  circuit_breaker_cfg :: CircuitBreakerConfig
  rate_limiter_cfg :: RateLimiterConfig
  retry_cfg :: RetryConfig
  enabled :: bool
  verbose :: bool

text \<open>The default values of the dataclass fields.\<close>

definition default_CircuitBreakerConfig :: CircuitBreakerConfig where
  "default_CircuitBreakerConfig =
     \<lparr>failure_threshold = 5, recovery_timeout = 30, half_open_max_calls = 3,
      success_threshold = 2\<rparr>"


definition default_RetryConfig :: RetryConfig where
  "default_RetryConfig =
     \<lparr>max_retries = 3, base_delay = 1, max_delay = 60, exponential_base = 2,
      jitter = double_0_1\<rparr>"


subsection \<open>CircuitBreaker\<close>

record CircuitBreaker =
  cb_config :: CircuitBreakerConfig
  cb_state :: CircuitState
  failure_count :: int
  success_count :: int
  last_failure_time :: "real option"
  half_open_calls :: int

definition new_CircuitBreaker :: "CircuitBreakerConfig \<Rightarrow> CircuitBreaker" where
  "new_CircuitBreaker cfg =
     \<lparr>cb_config = cfg, cb_state = CLOSED, failure_count = 0, success_count = 0,
      last_failure_time = None, half_open_calls = 0\<rparr>"

text \<open>
  The test \<^verbatim>\<open>self._last_failure_time and time.time() - self._last_failure_time >= ...\<close>
  is Python truthiness followed by the comparison: \<^verbatim>\<open>None\<close> and \<^verbatim>\<open>0.0\<close> are both
  false.
\<close>

definition recovery_due :: "real \<Rightarrow> CircuitBreaker \<Rightarrow> bool" where
  "recovery_due now cb =
     (case last_failure_time cb of
        None \<Rightarrow> False
      | Some t \<Rightarrow> t \<noteq> 0 \<and> now - t \<ge> recovery_timeout (cb_config cb))"

text \<open>The property \<^verbatim>\<open>state\<close>: a read that may move OPEN to HALF_OPEN.\<close>

definition state :: "real \<Rightarrow> CircuitBreaker \<Rightarrow> CircuitState \<times> CircuitBreaker" where
  "state now cb =
     (let cb' = (if cb_state cb = OPEN \<and> recovery_due now cb
                 then cb\<lparr>cb_state := HALF_OPEN, half_open_calls := 0, success_count := 0\<rparr>
                 else cb)
      in (cb_state cb', cb'))"

definition can_execute :: "real \<Rightarrow> CircuitBreaker \<Rightarrow> bool \<times> CircuitBreaker" where
  "can_execute now cb =
     (let (s, cb1) = state now cb
      in if s = CLOSED then (True, cb1)
         else if s = OPEN then (False, cb1)
         else if half_open_calls cb1 < half_open_max_calls (cb_config cb1)
              then (True, cb1\<lparr>half_open_calls := half_open_calls cb1 + 1\<rparr>)
              else (False, cb1))"

definition record_success :: "CircuitBreaker \<Rightarrow> CircuitBreaker" where
  "record_success cb =
     (if cb_state cb = HALF_OPEN then
        (let cb1 = cb\<lparr>success_count := success_count cb + 1\<rparr>
         in if success_count cb1 \<ge> success_threshold (cb_config cb1)
            then cb1\<lparr>cb_state := CLOSED, failure_count := 0\<rparr>
            else cb1)
      else if cb_state cb = CLOSED then cb\<lparr>failure_count := max 0 (failure_count cb - 1)\<rparr>
      else cb)"

definition record_failure :: "real \<Rightarrow> CircuitBreaker \<Rightarrow> CircuitBreaker" where
  "record_failure now cb =
     (let cb1 = cb\<lparr>failure_count := failure_count cb + 1, last_failure_time := Some now\<rparr>
      in if cb_state cb1 = HALF_OPEN then cb1\<lparr>cb_state := OPEN\<rparr>
         else if cb_state cb1 = CLOSED \<and> failure_count cb1 \<ge> failure_threshold (cb_config cb1)
              then cb1\<lparr>cb_state := OPEN\<rparr>
              else cb1)"

definition reset :: "CircuitBreaker \<Rightarrow> CircuitBreaker" where
  "reset cb =
     cb\<lparr>cb_state := CLOSED, failure_count := 0, success_count := 0,
        last_failure_time := None, half_open_calls := 0\<rparr>"

text \<open>Sequences of calls, one clock reading per call.\<close>

fun record_failures :: "real list \<Rightarrow> CircuitBreaker \<Rightarrow> CircuitBreaker" where
  "record_failures [] cb = cb"
| "record_failures (t # ts) cb = record_failures ts (record_failure t cb)"

fun record_successes :: "nat \<Rightarrow> CircuitBreaker \<Rightarrow> CircuitBreaker" where
  "record_successes 0 cb = cb"
| "record_successes (Suc n) cb = record_successes n (record_success cb)"

fun can_executes :: "real list \<Rightarrow> CircuitBreaker \<Rightarrow> bool list \<times> CircuitBreaker" where
  "can_executes [] cb = ([], cb)"
| "can_executes (t # ts) cb =
     (let (b, cb1) = can_execute t cb; (bs, cb2) = can_executes ts cb1 in (b # bs, cb2))"


subsection \<open>RateLimiter\<close>

text \<open>The exceptions that the module's own code raises.\<close>

datatype py_error = IndexError | OverflowError | TypeError

record RateLimiter =
  rl_config :: RateLimiterConfig
  request_timestamps :: "real list"
  token_usage :: "(real \<times> int) list"

definition new_RateLimiter :: "RateLimiterConfig \<Rightarrow> RateLimiter" where
  "new_RateLimiter cfg = \<lparr>rl_config = cfg, request_timestamps = [], token_usage = []\<rparr>"

text \<open>Python's \<^verbatim>\<open>int(x)\<close> on a float truncates towards zero.\<close>

definition py_int :: "real \<Rightarrow> int" where
  "py_int x = (if 0 \<le> x then \<lfloor>x\<rfloor> else \<lceil>x\<rceil>)"

text \<open>
  The double arithmetic of the rate limiter is a parameter of the model.

  The caps are \<^verbatim>\<open>int(n * x)\<close> for an int limit \<open>n\<close> and the float burst allowance
  \<open>x\<close>. In the product the int is converted to a double and the result is rounded, so
  it need not be the real product (in doubles \<^verbatim>\<open>10 * 0.7\<close> is \<^verbatim>\<open>7.0\<close>).
  \<open>int_times_float n x\<close> is \<open>Inr p\<close> when the product is the finite double \<open>p\<close>, and
  \<open>Inl OverflowError\<close> when the int is too large for a double or the product is
  infinite, the two cases in which the evaluation of \<^verbatim>\<open>int(n * x)\<close> raises
  OverflowError.

  \<open>float_minus x y\<close> is the rounded difference \<^verbatim>\<open>x - y\<close> of two doubles.
\<close>

record double_arith =
  int_times_float :: "int \<Rightarrow> real \<Rightarrow> py_error + real"
  float_minus :: "real \<Rightarrow> real \<Rightarrow> real"

text \<open>
  \<^verbatim>\<open>can_proceed\<close> prunes both deques from the left while the head is older than the
  window start, then checks the request count and the token volume. The read
  \<^verbatim>\<open>self._request_timestamps[0]\<close> of the request branch is not guarded: on an empty
  deque it raises IndexError, after the pruning has been done. The token branch is
  guarded by \<^verbatim>\<open>if self._token_usage\<close> and falls through to the final
  \<^verbatim>\<open>return True, None\<close> when the deque is empty.
\<close>

definition can_proceed ::
  "double_arith \<Rightarrow> real \<Rightarrow> int \<Rightarrow> RateLimiter \<Rightarrow>
   (py_error + bool \<times> real option) \<times> RateLimiter" where
  "can_proceed ops now estimated_tokens rl =
     (let window_start = float_minus ops now 60;
          reqs = dropWhile (\<lambda>t. t < window_start) (request_timestamps rl);
          toks = dropWhile (\<lambda>e. fst e < window_start) (token_usage rl);
          rl' = rl\<lparr>request_timestamps := reqs, token_usage := toks\<rparr>
      in case int_times_float ops (requests_per_minute (rl_config rl))
                (burst_allowance (rl_config rl)) of
           Inl err \<Rightarrow> (Inl err, rl')
         | Inr product \<Rightarrow>
             (let max_requests = py_int product
              in if int (length reqs) \<ge> max_requests then
                   (case reqs of
                      [] \<Rightarrow> (Inl IndexError, rl')
                    | t # _ \<Rightarrow>
                        (let wait_time = float_minus ops t window_start
                         in (Inr (False, Some (max double_0_1 wait_time)), rl')))
                 else
                   (let total_tokens = sum_list (map snd toks)
                    in case int_times_float ops (tokens_per_minute (rl_config rl))
                              (burst_allowance (rl_config rl)) of
                         Inl err \<Rightarrow> (Inl err, rl')
                       | Inr product \<Rightarrow>
                           (let max_tokens = py_int product
                            in if total_tokens + estimated_tokens > max_tokens then
                                 (case toks of
                                    [] \<Rightarrow> (Inr (True, None), rl')
                                  | e # _ \<Rightarrow>
                                      (let wait_time = float_minus ops (fst e) window_start
                                       in (Inr (False, Some (max double_0_1 wait_time)), rl')))
                               else (Inr (True, None), rl')))))"

definition record_request :: "real \<Rightarrow> int \<Rightarrow> RateLimiter \<Rightarrow> RateLimiter" where
  "record_request now tokens_used rl =
     (let rl1 = rl\<lparr>request_timestamps := request_timestamps rl @ [now]\<rparr>
      in if tokens_used > 0 then rl1\<lparr>token_usage := token_usage rl1 @ [(now, tokens_used)]\<rparr>
         else rl1)"

text \<open>
  \<^verbatim>\<open>record_request(None)\<close>, which \<^verbatim>\<open>execute\<close> calls when the result's
  \<^verbatim>\<open>usage.total_tokens\<close> is \<^verbatim>\<open>None\<close>: the timestamp is appended, then the comparison
  \<^verbatim>\<open>tokens_used > 0\<close> raises TypeError.
\<close>

definition record_request_none :: "real \<Rightarrow> RateLimiter \<Rightarrow> RateLimiter" where
  "record_request_none now rl = rl\<lparr>request_timestamps := request_timestamps rl @ [now]\<rparr>"

text \<open>
  The window start and the two double products, as \<^verbatim>\<open>can_proceed\<close> computes them from
  the time \<open>now\<close> of the call and from the configuration.
\<close>

definition window_start :: "double_arith \<Rightarrow> real \<Rightarrow> real" where
  "window_start ops now = float_minus ops now 60"

definition requests_product :: "double_arith \<Rightarrow> RateLimiter \<Rightarrow> py_error + real" where
  "requests_product ops rl =
     int_times_float ops (requests_per_minute (rl_config rl)) (burst_allowance (rl_config rl))"

definition tokens_product :: "double_arith \<Rightarrow> RateLimiter \<Rightarrow> py_error + real" where
  "tokens_product ops rl =
     int_times_float ops (tokens_per_minute (rl_config rl)) (burst_allowance (rl_config rl))"

text \<open>
  The entries of a log that lie in the window that starts at \<open>start\<close>, wherever they
  stand in the log. On a log in timestamp order this is what the pruning leaves.
\<close>

definition requests_in_window :: "real \<Rightarrow> RateLimiter \<Rightarrow> real list" where
  "requests_in_window start rl = filter (\<lambda>t. \<not> t < start) (request_timestamps rl)"


definition time_ordered :: "RateLimiter \<Rightarrow> bool" where
  "time_ordered rl \<longleftrightarrow> sorted (request_timestamps rl) \<and> sorted (map fst (token_usage rl))"

subsection \<open>RetryHandler\<close>

text \<open>
  \<^verbatim>\<open>calculate_delay\<close> is double arithmetic from end to end: the power
  \<^verbatim>\<open>exponential_base ** attempt\<close>, which raises OverflowError when its value is out of
  range, two products, the sum and product inside \<^verbatim>\<open>random.uniform\<close>, and one more
  sum, each of them rounded. It is not embedded over the reals; where \<^verbatim>\<open>execute\<close>
  calls it, its outcome (a delay or the OverflowError) is taken from the surroundings.

  \<^verbatim>\<open>should_retry\<close>. The classifier \<^verbatim>\<open>LiteLLMExceptions().get_ex_info(exception).retry\<close>
  lives in \<^verbatim>\<open>opta.exceptions\<close>, outside this module; it is the parameter
  \<open>ex_info_retry\<close>, whose value is \<^verbatim>\<open>True\<close>, \<^verbatim>\<open>False\<close> or \<^verbatim>\<open>None\<close>.
\<close>

definition should_retry :: "RetryConfig \<Rightarrow> ('e \<Rightarrow> bool option) \<Rightarrow> int \<Rightarrow> 'e \<Rightarrow> bool" where
  "should_retry cfg ex_info_retry attempt exception =
     (if attempt \<ge> max_retries cfg then False
      else (case ex_info_retry exception of Some r \<Rightarrow> r | None \<Rightarrow> False))"

subsection \<open>MiddlewareMetrics\<close>

record MiddlewareMetrics =
  total_requests :: int
  successful_requests :: int
  failed_requests :: int
  retried_requests :: int
  circuit_breaker_rejections :: int
  rate_limit_rejections :: int
  total_tokens_sent :: int
  total_tokens_received :: int
  total_cost :: real
  last_request_time :: "real option"
  average_latency_ms :: real
  latencies :: "real list"

definition new_MiddlewareMetrics :: MiddlewareMetrics where
  "new_MiddlewareMetrics =
     \<lparr>total_requests = 0, successful_requests = 0, failed_requests = 0,
      retried_requests = 0, circuit_breaker_rejections = 0, rate_limit_rejections = 0,
      total_tokens_sent = 0, total_tokens_received = 0, total_cost = 0,
      last_request_time = None, average_latency_ms = 0, latencies = []\<rparr>"

text \<open>\<^verbatim>\<open>deque(maxlen=100).append\<close> drops the oldest sample once the deque is full.\<close>

definition deque_append :: "nat \<Rightarrow> 'a list \<Rightarrow> 'a \<Rightarrow> 'a list" where
  "deque_append maxlen xs x = (let ys = xs @ [x] in drop (length ys - maxlen) ys)"

definition record_latency :: "real \<Rightarrow> MiddlewareMetrics \<Rightarrow> MiddlewareMetrics" where
  "record_latency latency_ms mt =
     (let ls = deque_append 100 (latencies mt) latency_ms;
          mt1 = mt\<lparr>latencies := ls\<rparr>
      in if ls \<noteq> [] then mt1\<lparr>average_latency_ms := sum_list ls / real (length ls)\<rparr> else mt1)"

subsection \<open>ProductionMiddleware\<close>

record ProductionMiddleware =
  config :: MiddlewareConfig
  circuit_breaker :: CircuitBreaker
  rate_limiter :: RateLimiter
  retry_handler :: RetryConfig
  metrics :: MiddlewareMetrics


text \<open>
  An exception object is one raised by the wrapped callable or one raised by the
  module's own code. \<^verbatim>\<open>execute\<close> raises one of its two admission errors or passes an
  exception object on as it is (a bare \<^verbatim>\<open>raise\<close>, \<^verbatim>\<open>raise last_exception\<close>, or no
  handler at all).
\<close>

datatype 'e exn = Original 'e | Own py_error

datatype 'e raised =
    CircuitOpenError CircuitState real
  | RateLimitExceededError "real option"
  | Propagated "'e exn"

text \<open>
  What a result shows to \<^verbatim>\<open>_extract_tokens\<close>: no true \<^verbatim>\<open>usage\<close> attribute, a
  \<^verbatim>\<open>usage\<close> without \<^verbatim>\<open>total_tokens\<close>, or a \<^verbatim>\<open>usage.total_tokens\<close> that is an int or
  \<^verbatim>\<open>None\<close>.
\<close>

datatype usage = NoUsage | NoTotal | Total "int option"

text \<open>
  The surroundings of a call of \<^verbatim>\<open>execute\<close>: the readings of \<^verbatim>\<open>time.time()\<close>; the
  outcomes of the successive calls of the wrapped callable (a raised object or a
  result); whether a raised object is an instance of \<^verbatim>\<open>Exception\<close>, as opposed to a
  bare \<^verbatim>\<open>BaseException\<close> such as \<^verbatim>\<open>KeyboardInterrupt\<close> or \<^verbatim>\<open>SystemExit\<close>; the
  classifier; the usage a result shows; the outcome of \<^verbatim>\<open>calculate_delay(attempt)\<close> at
  its successive calls; and the double arithmetic of the rate limiter. The callable does
  not touch the middleware. Every component method that may read the clock consumes one
  reading.
\<close>

record ('e, 'r) surroundings =
  clock :: "nat \<Rightarrow> real"
  func :: "nat \<Rightarrow> 'e + 'r"
  is_exception :: "'e \<Rightarrow> bool"
  ex_info_retry :: "'e exn \<Rightarrow> bool option"
  usage_of :: "'r \<Rightarrow> usage"
  calculate_delay :: "int \<Rightarrow> nat \<Rightarrow> py_error + real"
  arith :: double_arith

record progress =
  ticks :: nat
  calls :: nat
  delays :: nat
  slept :: real

definition time_time :: "('e, 'r) surroundings \<Rightarrow> progress \<Rightarrow> real \<times> progress" where
  "time_time env w = (clock env (ticks w), w\<lparr>ticks := Suc (ticks w)\<rparr>)"

definition call_func :: "('e, 'r) surroundings \<Rightarrow> progress \<Rightarrow> ('e + 'r) \<times> progress" where
  "call_func env w = (func env (calls w), w\<lparr>calls := Suc (calls w)\<rparr>)"

definition call_calculate_delay ::
  "('e, 'r) surroundings \<Rightarrow> int \<Rightarrow> progress \<Rightarrow> (py_error + real) \<times> progress" where
  "call_calculate_delay env attempt w =
     (calculate_delay env attempt (delays w), w\<lparr>delays := Suc (delays w)\<rparr>)"

definition time_sleep :: "real \<Rightarrow> progress \<Rightarrow> progress" where
  "time_sleep delay w = w\<lparr>slept := slept w + delay\<rparr>"

text \<open>
  \<^verbatim>\<open>_extract_tokens\<close>: the value of \<^verbatim>\<open>usage.total_tokens\<close> when there is one, else 0.
\<close>

definition extract_tokens :: "('e, 'r) surroundings \<Rightarrow> 'r \<Rightarrow> int option" where
  "extract_tokens env result =
     (case usage_of env result of
        NoUsage \<Rightarrow> Some 0
      | NoTotal \<Rightarrow> Some 0
      | Total total_tokens \<Rightarrow> total_tokens)"

text \<open>
  The part of the \<^verbatim>\<open>try\<close> block after the callable has returned. It raises TypeError,
  inside the \<^verbatim>\<open>try\<close>, when \<^verbatim>\<open>tokens_used\<close> is \<^verbatim>\<open>None\<close>; the success has been counted
  and the request timestamp logged by then. The latency is only recorded; it is computed
  over the reals.
\<close>

definition on_success ::
  "('e, 'r) surroundings \<Rightarrow> real \<Rightarrow> 'r \<Rightarrow> ProductionMiddleware \<Rightarrow> progress \<Rightarrow>
   py_error option \<times> ProductionMiddleware \<times> progress" where
  "on_success env start_time result m w =
     (let (t_end, w1) = time_time env w;
          latency_ms = (t_end - start_time) * 1000;
          cb = record_success (circuit_breaker m);
          mt = (metrics m)\<lparr>successful_requests := successful_requests (metrics m) + 1\<rparr>;
          mt = record_latency latency_ms mt;
          (t_last, w2) = time_time env w1;
          mt = mt\<lparr>last_request_time := Some t_last\<rparr>;
          tokens_used = extract_tokens env result;
          (t_rec, w3) = time_time env w2
      in case tokens_used of
           None \<Rightarrow>
             (Some TypeError,
              m\<lparr>circuit_breaker := cb,
                rate_limiter := record_request_none t_rec (rate_limiter m),
                metrics := mt\<rparr>, w3)
         | Some n \<Rightarrow>
             (None,
              m\<lparr>circuit_breaker := cb,
                rate_limiter := record_request t_rec n (rate_limiter m),
                metrics := (if n > 0
                            then mt\<lparr>total_tokens_received := total_tokens_received mt + n\<rparr>
                            else mt)\<rparr>, w3))"

text \<open>Recording a terminal failure: the breaker is told, \<^verbatim>\<open>failed_requests\<close> goes up.\<close>

definition on_failure ::
  "('e, 'r) surroundings \<Rightarrow> ProductionMiddleware \<Rightarrow> progress \<Rightarrow>
   ProductionMiddleware \<times> progress" where
  "on_failure env m w =
     (let (t, w1) = time_time env w;
          cb = record_failure t (circuit_breaker m);
          mt = (metrics m)\<lparr>failed_requests := failed_requests (metrics m) + 1\<rparr>
      in (m\<lparr>circuit_breaker := cb, metrics := mt\<rparr>, w1))"

text \<open>
  One run of the \<^verbatim>\<open>try\<close> block: the callable returns and the success is recorded, or
  an exception reaches \<^verbatim>\<open>except Exception\<close>, or the callable raises an object that is
  not an \<^verbatim>\<open>Exception\<close>, which no handler catches.
\<close>

datatype ('e, 'r) attempt_outcome = Returned 'r | Caught "'e exn" | Escaped "'e exn"

definition try_attempt ::
  "('e, 'r) surroundings \<Rightarrow> ProductionMiddleware \<Rightarrow> progress \<Rightarrow>
   ('e, 'r) attempt_outcome \<times> ProductionMiddleware \<times> progress" where
  "try_attempt env m w =
     (let (start_time, w1) = time_time env w;
          (outcome, w2) = call_func env w1
      in case outcome of
           Inl e \<Rightarrow>
             (if is_exception env e then Caught (Original e) else Escaped (Original e), m, w2)
         | Inr result \<Rightarrow>
             (let (err, m1, w3) = on_success env start_time result m w2
              in (case err of None \<Rightarrow> Returned result | Some x \<Rightarrow> Caught (Own x), m1, w3)))"

text \<open>
  The retry loop \<^verbatim>\<open>for attempt in range(max_retries + 1)\<close> over the list of the
  remaining attempts, with \<^verbatim>\<open>last_exception\<close>; the first equation is the code after
  the loop. A returned \<open>None\<close> is Python's implicit \<^verbatim>\<open>return None\<close>. An OverflowError
  of \<^verbatim>\<open>calculate_delay\<close> is raised inside the handler and leaves \<^verbatim>\<open>execute\<close>. The
  prints of verbose mode are left out.
\<close>

fun retry_loop ::
  "('e, 'r) surroundings \<Rightarrow> int list \<Rightarrow> 'e exn option \<Rightarrow> ProductionMiddleware \<Rightarrow> progress \<Rightarrow>
   ('e raised + 'r option) \<times> ProductionMiddleware \<times> progress" where
  "retry_loop env [] last_exception m w =
     (let (m1, w1) = on_failure env m w
      in (case last_exception of Some x \<Rightarrow> Inl (Propagated x) | None \<Rightarrow> Inr None, m1, w1))"
| "retry_loop env (attempt # rest) last_exception m w =
     (let (outcome, m1, w1) = try_attempt env m w
      in case outcome of
           Returned result \<Rightarrow> (Inr (Some result), m1, w1)
         | Escaped x \<Rightarrow> (Inl (Propagated x), m1, w1)
         | Caught x \<Rightarrow>
             if \<not> should_retry (retry_handler m1) (ex_info_retry env) attempt x then
               (let (m2, w2) = on_failure env m1 w1 in (Inl (Propagated x), m2, w2))
             else
               (let mt = (metrics m1)\<lparr>retried_requests := retried_requests (metrics m1) + 1\<rparr>;
                    m2 = m1\<lparr>metrics := mt\<rparr>;
                    (delay, w2) = call_calculate_delay env attempt w1
                in case delay of
                     Inl err \<Rightarrow> (Inl (Propagated (Own err)), m2, w2)
                   | Inr seconds \<Rightarrow> retry_loop env rest (Some x) m2 (time_sleep seconds w2)))"

definition execute ::
  "('e, 'r) surroundings \<Rightarrow> int \<Rightarrow> ProductionMiddleware \<Rightarrow> progress \<Rightarrow>
   ('e raised + 'r option) \<times> ProductionMiddleware \<times> progress" where
  "execute env estimated_tokens m w =
     (if \<not> enabled (config m) then
        (let (outcome, w1) = call_func env w
         in (case outcome of
               Inl e \<Rightarrow> Inl (Propagated (Original e))
             | Inr result \<Rightarrow> Inr (Some result), m, w1))
      else
        (let m1 = m\<lparr>metrics := (metrics m)\<lparr>total_requests := total_requests (metrics m) + 1\<rparr>\<rparr>;
             (t1, w1) = time_time env w;
             (ok, cb1) = can_execute t1 (circuit_breaker m1);
             m2 = m1\<lparr>circuit_breaker := cb1\<rparr>
         in if \<not> ok then
              (let mt = (metrics m2)\<lparr>circuit_breaker_rejections :=
                          circuit_breaker_rejections (metrics m2) + 1\<rparr>;
                   (t2, w2) = time_time env w1;
                   (s, cb2) = state t2 (circuit_breaker m2)
               in (Inl (CircuitOpenError s (recovery_timeout (circuit_breaker_cfg (config m2)))),
                   m2\<lparr>circuit_breaker := cb2, metrics := mt\<rparr>, w2))
            else
              (let (t2, w2) = time_time env w1;
                   (admission, rl1) =
                     can_proceed (arith env) t2 estimated_tokens (rate_limiter m2);
                   m3 = m2\<lparr>rate_limiter := rl1\<rparr>
               in case admission of
                    Inl err \<Rightarrow> (Inl (Propagated (Own err)), m3, w2)
                  | Inr (proceed, wait_time) \<Rightarrow>
                      if \<not> proceed then
                        (Inl (RateLimitExceededError wait_time),
                         m3\<lparr>metrics := (metrics m3)\<lparr>rate_limit_rejections :=
                               rate_limit_rejections (metrics m3) + 1\<rparr>\<rparr>, w2)
                      else retry_loop env [0 .. max_retries (retry_cfg (config m3))] None m3 w2)))"

definition mw_reset :: "ProductionMiddleware \<Rightarrow> ProductionMiddleware" where
  "mw_reset m = m\<lparr>circuit_breaker := reset (circuit_breaker m), metrics := new_MiddlewareMetrics\<rparr>"

subsection \<open>Sample objects\<close>

text \<open>
  A default breaker after five failures, the last at time 100, and the same breaker
  after a state read at time 130.
\<close>

definition tripped_breaker :: CircuitBreaker where
  "tripped_breaker =
     record_failures [96, 97, 98, 99, 100] (new_CircuitBreaker default_CircuitBreakerConfig)"

definition probing_breaker :: CircuitBreaker where
  "probing_breaker = snd (state 130 tripped_breaker)"

text \<open>
  Double arithmetic on arguments where it is exact: the limits of the sample limiters
  are small ints, their burst allowance is 1 or 1.5, and the times are whole numbers
  below 2000.
\<close>

definition exact_arith :: double_arith where
  "exact_arith =
     \<lparr>int_times_float = (\<lambda>n x. Inr (real_of_int n * x)), float_minus = (\<lambda>x y. x - y)\<rparr>"

text \<open>
  Rate limiters with recorded requests (50 tokens at time 980, 60 tokens at time 990):
  under a request cap of 2 and of 10; after one more request without tokens at time 970
  under a request cap of 3; and a limiter with a request cap of zero and one request
  recorded at time 100.
\<close>

definition stalled_limiter :: RateLimiter where
  "stalled_limiter =
     record_request 100 0
       (new_RateLimiter \<lparr>requests_per_minute = 0, tokens_per_minute = 100000,
                         burst_allowance = 3 / 2\<rparr>)"

definition busy_limiter :: RateLimiter where
  "busy_limiter =
     record_request 990 60 (record_request 980 50
       (new_RateLimiter \<lparr>requests_per_minute = 2, tokens_per_minute = 100,
                         burst_allowance = 1\<rparr>))"





section \<open>Circuit breaker: properties\<close>

lemma record_failure_config [simp]: "cb_config (record_failure now cb) = cb_config cb"
  by (simp add: record_failure_def Let_def)

lemma record_failure_count [simp]:
  "failure_count (record_failure now cb) = failure_count cb + 1"
  by (simp add: record_failure_def Let_def)

lemma record_failure_time [simp]:
  "last_failure_time (record_failure now cb) = Some now"
  by (simp add: record_failure_def Let_def)

lemma record_failure_open:
  "cb_state cb = OPEN \<Longrightarrow> cb_state (record_failure now cb) = OPEN"
  by (simp add: record_failure_def Let_def)

lemma record_failure_closed:
  "cb_state cb = CLOSED \<Longrightarrow>
   cb_state (record_failure now cb) =
     (if failure_threshold (cb_config cb) \<le> failure_count cb + 1 then OPEN else CLOSED)"
  by (simp add: record_failure_def Let_def)

lemma record_failures_open:
  "cb_state cb = OPEN \<Longrightarrow> cb_state (record_failures ts cb) = OPEN"
  by (induction ts arbitrary: cb) (simp_all add: record_failure_open)

lemma record_failures_count:
  "failure_count (record_failures ts cb) = failure_count cb + int (length ts)"
  by (induction ts arbitrary: cb) simp_all

lemma record_failures_time:
  "ts \<noteq> [] \<Longrightarrow> last_failure_time (record_failures ts cb) = Some (last ts)"
proof (induction ts arbitrary: cb)
  case Nil
  then show ?case by simp
next
  case (Cons t ts)
  show ?case
  proof (cases ts)
    case Nil
    then show ?thesis by simp
  next
    case (Cons u us)
    with Cons.IH [of "record_failure t cb"] show ?thesis by simp
  qed
qed

lemma record_failures_trip:
  "cb_state cb = CLOSED \<Longrightarrow> ts \<noteq> [] \<Longrightarrow>
   failure_threshold (cb_config cb) \<le> failure_count cb + int (length ts) \<Longrightarrow>
   cb_state (record_failures ts cb) = OPEN"
proof (induction ts arbitrary: cb)
  case Nil
  then show ?case by simp
next
  case (Cons t ts)
  let ?cb1 = "record_failure t cb"
  show ?case
  proof (cases "failure_threshold (cb_config cb) \<le> failure_count cb + 1")
    case True
    with Cons.prems(1) have "cb_state ?cb1 = OPEN"
      by (simp add: record_failure_closed)
    then show ?thesis by (simp add: record_failures_open)
  next
    case False
    with Cons.prems(1) have closed: "cb_state ?cb1 = CLOSED"
      by (simp add: record_failure_closed)
    from False Cons.prems(3) have ne: "ts \<noteq> []" by auto
    from Cons.prems(3)
    have "failure_threshold (cb_config ?cb1) \<le> failure_count ?cb1 + int (length ts)"
      by simp
    from Cons.IH [OF closed ne this] show ?thesis by simp
  qed
qed

text \<open>The failure count never becomes negative.\<close>

lemma new_CircuitBreaker_count: "failure_count (new_CircuitBreaker cfg) = 0"
  by (simp add: new_CircuitBreaker_def)

lemma failure_count_nonneg:
  assumes "0 \<le> failure_count cb"
  shows "0 \<le> failure_count (record_failure now cb)"
    and "0 \<le> failure_count (record_success cb)"
    and "0 \<le> failure_count (snd (state now cb))"
    and "0 \<le> failure_count (snd (can_execute now cb))"
    and "0 \<le> failure_count (reset cb)"
  using assms
  by (simp_all add: record_success_def state_def can_execute_def reset_def Let_def)

text \<open>
  Claim C3. On a CLOSED breaker every \<^verbatim>\<open>record_failure\<close> adds one to the failure count
  and every \<^verbatim>\<open>record_success\<close> takes one off without going below zero. After
  \<^verbatim>\<open>failure_threshold\<close> consecutive failures (at least one, recorded at the times
  \<open>ts\<close>, with no success in between) on a CLOSED breaker whose count is not negative,
  the state is OPEN and the last failure time is the time of the last of them.
\<close>

theorem C3_closed_counting_and_trip:
  assumes "cb_state cb = CLOSED"
  shows "failure_count (record_failure now cb) = failure_count cb + 1
       \<and> failure_count (record_success cb) = max 0 (failure_count cb - 1)
       \<and> 0 \<le> failure_count (record_success cb)
       \<and> (0 \<le> failure_count cb \<and> 0 < failure_threshold (cb_config cb)
            \<and> int (length ts) = failure_threshold (cb_config cb) \<longrightarrow>
            cb_state (record_failures ts cb) = OPEN
            \<and> last_failure_time (record_failures ts cb) = Some (last ts))"
proof -
  have success: "failure_count (record_success cb) = max 0 (failure_count cb - 1)"
    using assms by (simp add: record_success_def)
  have trip: "cb_state (record_failures ts cb) = OPEN
       \<and> last_failure_time (record_failures ts cb) = Some (last ts)"
    if "0 \<le> failure_count cb" "0 < failure_threshold (cb_config cb)"
       "int (length ts) = failure_threshold (cb_config cb)"
  proof -
    from that have ne: "ts \<noteq> []" by auto
    from that have "failure_threshold (cb_config cb) \<le> failure_count cb + int (length ts)"
      by simp
    with assms ne show ?thesis
      by (simp add: record_failures_trip record_failures_time)
  qed
  from success trip show ?thesis by simp
qed

lemma state_half_open:
  "cb_state cb = HALF_OPEN \<Longrightarrow> state now cb = (HALF_OPEN, cb)"
  by (simp add: state_def)

lemma state_closed:
  "cb_state cb = CLOSED \<Longrightarrow> state now cb = (CLOSED, cb)"
  by (simp add: state_def)


lemma can_execute_half_open:
  "cb_state cb = HALF_OPEN \<Longrightarrow>
   can_execute now cb =
     (if half_open_calls cb < half_open_max_calls (cb_config cb)
      then (True, cb\<lparr>half_open_calls := half_open_calls cb + 1\<rparr>)
      else (False, cb))"
  by (simp add: can_execute_def state_half_open)

lemma can_executes_half_open:
  "cb_state cb = HALF_OPEN \<Longrightarrow>
   can_executes ts cb =
     (map (\<lambda>i. half_open_calls cb + int i < half_open_max_calls (cb_config cb)) [0..<length ts],
      cb\<lparr>half_open_calls :=
           max (half_open_calls cb)
               (min (half_open_calls cb + int (length ts)) (half_open_max_calls (cb_config cb)))\<rparr>)"
proof (induction ts arbitrary: cb)
  case Nil
  then show ?case by simp
next
  case (Cons t ts)
  let ?h = "half_open_calls cb" and ?m = "half_open_max_calls (cb_config cb)"
  have unroll: "map (\<lambda>i. ?h + int i < ?m) [0..<length (t # ts)]
              = (?h < ?m) # map (\<lambda>i. ?h + 1 + int i < ?m) [0..<length ts]"
    by (simp add: map_upt_Suc algebra_simps del: upt_Suc)
  show ?case
  proof (cases "?h < ?m")
    case True
    let ?cb1 = "cb\<lparr>half_open_calls := ?h + 1\<rparr>"
    have st: "cb_state ?cb1 = HALF_OPEN" using Cons.prems by simp
    have first: "can_execute t cb = (True, ?cb1)"
      using True Cons.prems by (simp add: can_execute_half_open)
    have count: "max (?h + 1) (min (?h + 1 + int (length ts)) ?m)
               = max ?h (min (?h + (1 + int (length ts))) ?m)"
      using True by (simp add: min_def max_def)
    from Cons.IH [OF st] True show ?thesis
      unfolding unroll by (simp add: first count)
  next
    case False
    have first: "can_execute t cb = (False, cb)"
      using False Cons.prems by (simp add: can_execute_half_open)
    have rest: "map (\<lambda>i. ?h + 1 + int i < ?m) [0..<length ts]
              = map (\<lambda>i. ?h + int i < ?m) [0..<length ts]"
      using False by simp
    have count: "max ?h (min (?h + int (length ts)) ?m)
               = max ?h (min (?h + (1 + int (length ts))) ?m)"
      using False by linarith
    from Cons.IH [OF Cons.prems] False show ?thesis
      unfolding unroll rest by (simp add: first count)
  qed
qed

lemma record_success_closed_zero:
  "cb_state cb = CLOSED \<Longrightarrow> failure_count cb = 0 \<Longrightarrow>
   cb_state (record_success cb) = CLOSED \<and> failure_count (record_success cb) = 0"
  by (simp add: record_success_def)

lemma record_successes_closed_zero:
  "cb_state cb = CLOSED \<Longrightarrow> failure_count cb = 0 \<Longrightarrow>
   cb_state (record_successes n cb) = CLOSED \<and> failure_count (record_successes n cb) = 0"
  by (induction n arbitrary: cb) (simp_all add: record_success_closed_zero)

lemma record_success_half_open:
  "cb_state cb = HALF_OPEN \<Longrightarrow>
   record_success cb =
     (if success_threshold (cb_config cb) \<le> success_count cb + 1
      then cb\<lparr>success_count := success_count cb + 1, cb_state := CLOSED, failure_count := 0\<rparr>
      else cb\<lparr>success_count := success_count cb + 1\<rparr>)"
  by (simp add: record_success_def Let_def)

lemma record_successes_half_open:
  "cb_state cb = HALF_OPEN \<Longrightarrow>
   (if 0 < n \<and> success_threshold (cb_config cb) \<le> success_count cb + int n
    then cb_state (record_successes n cb) = CLOSED \<and> failure_count (record_successes n cb) = 0
    else cb_state (record_successes n cb) = HALF_OPEN
         \<and> success_count (record_successes n cb) = success_count cb + int n
         \<and> failure_count (record_successes n cb) = failure_count cb)"
proof (induction n arbitrary: cb)
  case 0
  then show ?case by simp
next
  case (Suc n)
  show ?case
  proof (cases "success_threshold (cb_config cb) \<le> success_count cb + 1")
    case True
    let ?cb1 = "cb\<lparr>success_count := success_count cb + 1, cb_state := CLOSED, failure_count := 0\<rparr>"
    have "cb_state (record_successes n ?cb1) = CLOSED \<and> failure_count (record_successes n ?cb1) = 0"
      by (rule record_successes_closed_zero) simp_all
    with True Suc.prems show ?thesis by (simp add: record_success_half_open)
  next
    case False
    let ?cb1 = "cb\<lparr>success_count := success_count cb + 1\<rparr>"
    have st: "cb_state ?cb1 = HALF_OPEN" using Suc.prems by simp
    have step: "record_successes (Suc n) cb = record_successes n ?cb1"
      using False Suc.prems by (simp add: record_success_half_open)
    show ?thesis
    proof (cases "n = 0")
      case True
      with False Suc.prems show ?thesis by (simp add: record_success_half_open)
    next
      case nz: False
      have "success_count cb + 1 + int n = success_count cb + int (Suc n)" by simp
      with Suc.IH [OF st] nz show ?thesis
        unfolding step by (simp add: add.assoc)
    qed
  qed
qed

lemma record_failure_half_open:
  "cb_state cb = HALF_OPEN \<Longrightarrow> cb_state (record_failure now cb) = OPEN"
  by (simp add: record_failure_def Let_def)



lemma tripped_breaker_eq:
  "tripped_breaker =
     \<lparr>cb_config = default_CircuitBreakerConfig, cb_state = OPEN, failure_count = 5,
      success_count = 0, last_failure_time = Some 100, half_open_calls = 0\<rparr>"
  by (simp add: tripped_breaker_def new_CircuitBreaker_def record_failure_def
      default_CircuitBreakerConfig_def)

lemma probing_breaker_eq:
  "probing_breaker =
     \<lparr>cb_config = default_CircuitBreakerConfig, cb_state = HALF_OPEN, failure_count = 5,
      success_count = 0, last_failure_time = Some 100, half_open_calls = 0\<rparr>"
  by (simp add: probing_breaker_def tripped_breaker_eq state_def recovery_due_def
      default_CircuitBreakerConfig_def)

theorem C3_witness:
  "cb_state (new_CircuitBreaker default_CircuitBreakerConfig) = CLOSED
   \<and> failure_count (record_failure 96 (new_CircuitBreaker default_CircuitBreakerConfig)) = 1
   \<and> failure_count (record_success (new_CircuitBreaker default_CircuitBreakerConfig)) = 0
   \<and> cb_state tripped_breaker = OPEN
   \<and> last_failure_time tripped_breaker = Some 100"
proof -
  let ?cb = "new_CircuitBreaker default_CircuitBreakerConfig"
  have closed: "cb_state ?cb = CLOSED"
    by (simp add: new_CircuitBreaker_def)
  have pre: "0 \<le> failure_count ?cb \<and> 0 < failure_threshold (cb_config ?cb)
           \<and> int (length [96, 97, 98, 99, 100 :: real]) = failure_threshold (cb_config ?cb)"
    by (simp add: new_CircuitBreaker_def default_CircuitBreakerConfig_def)
  have zero: "failure_count ?cb = 0"
    by (simp add: new_CircuitBreaker_def)
  from C3_closed_counting_and_trip [OF closed, where now = 96 and ts = "[96, 97, 98, 99, 100]"]
       pre zero closed
  show ?thesis
    unfolding tripped_breaker_def by simp
qed



text \<open>
  Claim C5. On a HALF_OPEN breaker \<^verbatim>\<open>can_execute\<close> answers True and adds one to
  \<^verbatim>\<open>_half_open_calls\<close> as long as that count is below \<^verbatim>\<open>half_open_max_calls\<close>, and
  answers False without any change afterwards: of the calls made at the times \<open>ts\<close>,
  call number \<open>i\<close> is admitted exactly when the count before the first call plus \<open>i\<close> is
  below the cap (the count is zero when the half-open cycle begins), and the breaker
  stays HALF_OPEN. Counting from the beginning of the cycle (\<^verbatim>\<open>_success_count\<close> zero),
  fewer than \<^verbatim>\<open>success_threshold\<close> successes leave the breaker HALF_OPEN, and the
  success that completes \<^verbatim>\<open>success_threshold\<close> of them closes it with the failure
  count at zero. One \<^verbatim>\<open>record_failure\<close> opens it again, after any number of successes.
\<close>

theorem C5_half_open_trials:
  assumes "cb_state cb = HALF_OPEN"
  shows "can_execute now cb =
           (if half_open_calls cb < half_open_max_calls (cb_config cb)
            then (True, cb\<lparr>half_open_calls := half_open_calls cb + 1\<rparr>)
            else (False, cb))
       \<and> fst (can_executes ts cb) =
           map (\<lambda>i. half_open_calls cb + int i < half_open_max_calls (cb_config cb))
               [0..<length ts]
       \<and> cb_state (snd (can_executes ts cb)) = HALF_OPEN
       \<and> (success_count cb = 0 \<and> int n < success_threshold (cb_config cb) \<longrightarrow>
            cb_state (record_successes n cb) = HALF_OPEN
            \<and> cb_state (record_failure now (record_successes n cb)) = OPEN)
       \<and> (success_count cb = 0 \<and> 0 < n \<and> int n = success_threshold (cb_config cb) \<longrightarrow>
            cb_state (record_successes n cb) = CLOSED
            \<and> failure_count (record_successes n cb) = 0)
       \<and> cb_state (record_failure now cb) = OPEN"
proof -
  note trials = can_executes_half_open [OF assms, of ts]
  have fewer: "cb_state (record_successes n cb) = HALF_OPEN
            \<and> cb_state (record_failure now (record_successes n cb)) = OPEN"
    if "success_count cb = 0" "int n < success_threshold (cb_config cb)"
  proof -
    from record_successes_half_open [OF assms, of n] that
    have "cb_state (record_successes n cb) = HALF_OPEN" by simp
    then show ?thesis by (simp add: record_failure_half_open)
  qed
  have exactly: "cb_state (record_successes n cb) = CLOSED
            \<and> failure_count (record_successes n cb) = 0"
    if "success_count cb = 0" "0 < n" "int n = success_threshold (cb_config cb)"
    using record_successes_half_open [OF assms, of n] that by simp
  from fewer exactly show ?thesis
    using assms by (simp add: can_execute_half_open trials record_failure_half_open)
qed

theorem C5_witness:
  "cb_state probing_breaker = HALF_OPEN
   \<and> can_executes [131, 132, 133, 134, 135] probing_breaker =
       ([True, True, True, False, False], probing_breaker\<lparr>half_open_calls := 3\<rparr>)
   \<and> cb_state (record_successes 1 probing_breaker) = HALF_OPEN
   \<and> cb_state (record_failure 140 (record_successes 1 probing_breaker)) = OPEN
   \<and> cb_state (record_successes 2 probing_breaker) = CLOSED
   \<and> failure_count (record_successes 2 probing_breaker) = 0
   \<and> cb_state (record_failure 140 probing_breaker) = OPEN"
proof -
  have pre: "cb_state probing_breaker = HALF_OPEN"
    by (simp add: probing_breaker_eq)
  have cfg: "success_count probing_breaker = 0" "half_open_calls probing_breaker = 0"
    "success_threshold (cb_config probing_breaker) = 2"
    "half_open_max_calls (cb_config probing_breaker) = 3"
    by (simp_all add: probing_breaker_eq default_CircuitBreakerConfig_def)
  have trials: "can_executes [131, 132, 133, 134, 135] probing_breaker =
       ([True, True, True, False, False], probing_breaker\<lparr>half_open_calls := 3\<rparr>)"
    by (simp add: probing_breaker_eq can_execute_def state_def default_CircuitBreakerConfig_def)
  from C5_half_open_trials [OF pre, where now = 140 and ts = "[131, 132, 133, 134, 135]" and n = 1]
       C5_half_open_trials [OF pre, where now = 140 and ts = "[]" and n = 2] pre cfg trials
  show ?thesis
    by (simp del: can_executes.simps record_successes.simps)
qed

section \<open>Rate limiter: properties\<close>

lemma py_int_nonneg: "0 \<le> x \<Longrightarrow> py_int x = \<lfloor>x\<rfloor>"
  by (simp add: py_int_def)

lemma py_int_le_count: "0 \<le> n \<Longrightarrow> py_int x \<le> n \<longleftrightarrow> \<lfloor>x\<rfloor> \<le> n"
proof (cases "0 \<le> x")
  case True
  then show ?thesis by (simp add: py_int_def)
next
  case False
  assume n: "0 \<le> n"
  from False have up: "\<lceil>x\<rceil> \<le> 0" by simp
  have "\<lfloor>x\<rfloor> \<le> \<lceil>x\<rceil>" by (rule floor_le_ceiling)
  with up n have "\<lceil>x\<rceil> \<le> n" "\<lfloor>x\<rfloor> \<le> n" by linarith+
  with False show ?thesis by (simp add: py_int_def)
qed


lemma dropWhile_sorted_key:
  fixes f :: "'a \<Rightarrow> real"
  shows "sorted (map f xs) \<Longrightarrow>
   dropWhile (\<lambda>e. f e < w) xs = filter (\<lambda>e. \<not> f e < w) xs"
proof (induction xs)
  case Nil
  then show ?case by simp
next
  case (Cons x xs)
  show ?case
  proof (cases "f x < w")
    case True
    with Cons show ?thesis by simp
  next
    case False
    with Cons.prems have "\<forall>e \<in> set xs. \<not> f e < w" by auto
    then have "filter (\<lambda>e. \<not> f e < w) xs = xs" by (simp add: filter_id_conv)
    with False show ?thesis by simp
  qed
qed

lemma pruned_requests:
  "time_ordered rl \<Longrightarrow>
   dropWhile (\<lambda>t. t < w) (request_timestamps rl) = requests_in_window w rl"
  using dropWhile_sorted_key [of "\<lambda>t. t" "request_timestamps rl" w]
  by (simp add: time_ordered_def requests_in_window_def)


lemma dropWhile_all: "\<forall>x \<in> set xs. P x \<Longrightarrow> dropWhile P xs = []"
  by (induction xs) simp_all


text \<open>The outcomes of \<^verbatim>\<open>can_proceed\<close> in terms of the pruned logs.\<close>

lemma can_proceed_request_branch:
  assumes "int_times_float ops (requests_per_minute (rl_config rl)) (burst_allowance (rl_config rl)) = Inr p"
    and "dropWhile (\<lambda>t. t < float_minus ops now 60) (request_timestamps rl) = t # rest"
    and "py_int p \<le> int (length (t # rest))"
  shows "fst (can_proceed ops now est rl) = Inr (False, Some (max double_0_1 (float_minus ops t (float_minus ops now 60))))"
  unfolding can_proceed_def Let_def assms(1) assms(2) using assms(3) by simp

lemma can_proceed_request_crash:
  assumes "int_times_float ops (requests_per_minute (rl_config rl)) (burst_allowance (rl_config rl)) = Inr p"
    and "dropWhile (\<lambda>t. t < float_minus ops now 60) (request_timestamps rl) = []"
    and "py_int p \<le> 0"
  shows "fst (can_proceed ops now est rl) = Inl IndexError"
  unfolding can_proceed_def Let_def assms(1) assms(2) using assms(3) by simp


lemma can_proceed_no_tokens:
  assumes "int_times_float ops (requests_per_minute (rl_config rl)) (burst_allowance (rl_config rl)) = Inr p"
    and "int (length (dropWhile (\<lambda>t. t < float_minus ops now 60) (request_timestamps rl))) < py_int p"
    and "int_times_float ops (tokens_per_minute (rl_config rl)) (burst_allowance (rl_config rl)) = Inr q"
    and "dropWhile (\<lambda>e. fst e < float_minus ops now 60) (token_usage rl) = []"
  shows "fst (can_proceed ops now est rl) = Inr (True, None)"
  using assms(2) unfolding can_proceed_def Let_def assms(1) assms(3) assms(4) by simp

lemma can_proceed_state:
  "snd (can_proceed ops now est rl) =
     rl\<lparr>request_timestamps := dropWhile (\<lambda>t. t < float_minus ops now 60) (request_timestamps rl),
        token_usage := dropWhile (\<lambda>e. fst e < float_minus ops now 60) (token_usage rl)\<rparr>"
  by (simp add: can_proceed_def Let_def split: list.splits sum.splits)

text \<open>
  Pruning keeps the logs in timestamp order, and so does recording at a time that is
  not before the logged ones. Every logged token count is positive.
\<close>

lemma time_ordered_can_proceed:
  assumes "time_ordered rl"
  shows "time_ordered (snd (can_proceed ops now est rl))"
proof -
  have "map fst (dropWhile (\<lambda>e. fst e < float_minus ops now 60) (token_usage rl))
      = dropWhile (\<lambda>t. t < float_minus ops now 60) (map fst (token_usage rl))"
    by (simp add: dropWhile_map comp_def)
  with assms show ?thesis
    by (simp add: can_proceed_state time_ordered_def sorted_dropWhile)
qed

lemma time_ordered_record_request:
  assumes "time_ordered rl"
    and "\<forall>t \<in> set (request_timestamps rl). t \<le> now"
    and "\<forall>e \<in> set (token_usage rl). fst e \<le> now"
  shows "time_ordered (record_request now tokens_used rl)"
  using assms by (auto simp add: record_request_def time_ordered_def sorted_append Let_def)

lemma token_counts_positive:
  assumes "\<forall>e \<in> set (token_usage rl). 0 < snd e"
  shows "\<forall>e \<in> set (token_usage (record_request now tokens_used rl)). 0 < snd e"
    and "\<forall>e \<in> set (token_usage (record_request_none now rl)). 0 < snd e"
    and "\<forall>e \<in> set (token_usage (snd (can_proceed ops now est rl))). 0 < snd e"
proof -
  show "\<forall>e \<in> set (token_usage (record_request now tokens_used rl)). 0 < snd e"
    using assms by (auto simp add: record_request_def Let_def)
  show "\<forall>e \<in> set (token_usage (record_request_none now rl)). 0 < snd e"
    using assms by (simp add: record_request_none_def)
  show "\<forall>e \<in> set (token_usage (snd (can_proceed ops now est rl))). 0 < snd e"
    using assms by (auto simp add: can_proceed_state dest: set_dropWhileD)
qed



lemma busy_limiter_eq:
  "busy_limiter =
     \<lparr>rl_config = \<lparr>requests_per_minute = 2, tokens_per_minute = 100, burst_allowance = 1\<rparr>,
      request_timestamps = [980, 990], token_usage = [(980, 50), (990, 60)]\<rparr>"
  by (simp add: busy_limiter_def record_request_def new_RateLimiter_def)


lemma stalled_limiter_eq:
  "stalled_limiter =
     \<lparr>rl_config = \<lparr>requests_per_minute = 0, tokens_per_minute = 100000, burst_allowance = 3 / 2\<rparr>,
      request_timestamps = [100], token_usage = []\<rparr>"
  by (simp add: stalled_limiter_def record_request_def new_RateLimiter_def)



text \<open>
  The request branch of \<^verbatim>\<open>can_proceed\<close> where it works. On a limiter whose logs are in
  timestamp order, if at least one request timestamp lies in the trailing window and
  their number is at least \<open>floor p\<close>, with \<open>p\<close> the double product
  \<^verbatim>\<open>requests_per_minute * burst_allowance\<close>, the answer is False with the positive
  wait time \<open>max 0.1 (oldest remaining timestamp - window start)\<close>. Once every entry of
  both logs is older than 60 seconds, the answer is \<open>(True, None)\<close> if \<open>floor p\<close> is at
  least 1 and the token cap can be computed.
\<close>

lemma can_proceed_request_denial:
  assumes "requests_product ops rl = Inr p"
  shows "(time_ordered rl \<and> requests_in_window (window_start ops now) rl = t # rest
           \<and> int (length (requests_in_window (window_start ops now) rl)) \<ge> \<lfloor>p\<rfloor>
           \<longrightarrow> fst (can_proceed ops now est rl)
                 = Inr (False, Some (max double_0_1
                        (float_minus ops t (window_start ops now))))
               \<and> 0 < max double_0_1 (float_minus ops t (window_start ops now)))
       \<and> ((\<forall>t \<in> set (request_timestamps rl). t < window_start ops now)
           \<and> (\<forall>e \<in> set (token_usage rl). fst e < window_start ops now)
           \<and> tokens_product ops rl = Inr q
           \<and> 1 \<le> \<lfloor>p\<rfloor>
           \<longrightarrow> can_proceed ops now est rl
                 = (Inr (True, None), rl\<lparr>request_timestamps := [], token_usage := []\<rparr>))"
proof -
  note defs = window_start_def requests_product_def tokens_product_def
  note a = assms [unfolded defs]
  have deny: "fst (can_proceed ops now est rl) = Inr (False, Some (max double_0_1 (float_minus ops t (float_minus ops now 60))))"
    if "time_ordered rl" "requests_in_window (float_minus ops now 60) rl = t # rest"
       "int (length (requests_in_window (float_minus ops now 60) rl)) \<ge> \<lfloor>p\<rfloor>"
  proof (rule can_proceed_request_branch [OF a])
    from that show "dropWhile (\<lambda>t. t < float_minus ops now 60) (request_timestamps rl) = t # rest"
      by (simp add: pruned_requests)
    from that show "py_int p \<le> int (length (t # rest))"
      by (simp add: py_int_le_count)
  qed
  have pos: "(0::real) < max double_0_1 (float_minus ops t (float_minus ops now 60))"
    by (simp add: less_max_iff_disj double_0_1_def)
  have allow: "can_proceed ops now est rl
           = (Inr (True, None), rl\<lparr>request_timestamps := [], token_usage := []\<rparr>)"
    if old: "\<forall>t \<in> set (request_timestamps rl). t < float_minus ops now 60"
       "\<forall>e \<in> set (token_usage rl). fst e < float_minus ops now 60"
      and q: "int_times_float ops (tokens_per_minute (rl_config rl)) (burst_allowance (rl_config rl)) = Inr q"
      and cap: "1 \<le> \<lfloor>p\<rfloor>"
  proof -
    from old have empty: "dropWhile (\<lambda>t. t < float_minus ops now 60) (request_timestamps rl) = []"
      "dropWhile (\<lambda>e. fst e < float_minus ops now 60) (token_usage rl) = []"
      by (simp_all add: dropWhile_all)
    from cap have "0 \<le> p" by linarith
    with cap have "0 < py_int p" by (simp add: py_int_nonneg)
    then have "int (length (dropWhile (\<lambda>t. t < float_minus ops now 60) (request_timestamps rl))) < py_int p"
      unfolding empty by simp
    from can_proceed_no_tokens [OF a this q empty(2)]
    have "fst (can_proceed ops now est rl) = Inr (True, None)" .
    moreover have "snd (can_proceed ops now est rl)
        = rl\<lparr>request_timestamps := [], token_usage := []\<rparr>"
      unfolding can_proceed_state empty ..
    ultimately show ?thesis by (simp add: prod_eq_iff)
  qed
  from deny pos allow show ?thesis unfolding defs by blast
qed

text \<open>
  Claim C2 holds of what \<^verbatim>\<open>can_proceed\<close> is written to do, and the code breaks it when
  the request cap is zero. With \<^verbatim>\<open>requests_per_minute = 0\<close> (the product with the burst
  allowance 1.5 is 0.0) and one request logged at time 100, at time 1000 every logged
  request is older than 60 seconds and the count in the window, 0, has reached the cap,
  0. The claim promises \<open>(True, None)\<close>, or else a denial with a wait time; the code
  prunes the log to empty and then reads \<^verbatim>\<open>self._request_timestamps[0]\<close>, which raises
  IndexError.
\<close>

theorem C2_zero_cap_raises_index_error:
  "request_timestamps stalled_limiter = [100]
   \<and> (100 :: real) < window_start exact_arith 1000
   \<and> token_usage stalled_limiter = []
   \<and> requests_product exact_arith stalled_limiter = Inr 0
   \<and> int (length (requests_in_window (window_start exact_arith 1000) stalled_limiter))
       \<ge> \<lfloor>0 :: real\<rfloor>
   \<and> fst (can_proceed exact_arith 1000 0 stalled_limiter) = Inl IndexError"
  by (simp add: stalled_limiter_eq requests_in_window_def can_proceed_def py_int_def
      exact_arith_def window_start_def requests_product_def)

section \<open>Retry handler: properties\<close>

text \<open>
  Claim C7. \<^verbatim>\<open>should_retry\<close> is False whenever the attempt index has reached
  \<^verbatim>\<open>max_retries\<close>; below \<^verbatim>\<open>max_retries\<close> it is the verdict of the classifier for the
  exception, with no verdict (\<^verbatim>\<open>None\<close>) counted as False; and it is False whenever the
  classifier gives no verdict.
\<close>

theorem C7_should_retry:
  "(max_retries cfg \<le> a \<longrightarrow> \<not> should_retry cfg classify a e)
   \<and> (a < max_retries cfg \<longrightarrow>
        should_retry cfg classify a e = (case classify e of Some r \<Rightarrow> r | None \<Rightarrow> False))
   \<and> (classify e = None \<longrightarrow> \<not> should_retry cfg classify a e)"
  by (simp add: should_retry_def)

theorem C7_witness:
  "\<not> should_retry default_RetryConfig (\<lambda>e :: nat. if e = 0 then None else Some (e = 1)) 3 1
   \<and> should_retry default_RetryConfig (\<lambda>e :: nat. if e = 0 then None else Some (e = 1)) 2 1
   \<and> \<not> should_retry default_RetryConfig (\<lambda>e :: nat. if e = 0 then None else Some (e = 1)) 2 2
   \<and> \<not> should_retry default_RetryConfig (\<lambda>e :: nat. if e = 0 then None else Some (e = 1)) 2 0"
proof -
  let ?c = "\<lambda>e :: nat. if e = 0 then None else Some (e = 1)"
  have m: "max_retries default_RetryConfig = 3"
    by (simp add: default_RetryConfig_def)
  from C7_should_retry [where cfg = default_RetryConfig and classify = ?c and a = 3 and e = 1]
       C7_should_retry [where cfg = default_RetryConfig and classify = ?c and a = 2 and e = 1]
       C7_should_retry [where cfg = default_RetryConfig and classify = ?c and a = 2 and e = 2]
       C7_should_retry [where cfg = default_RetryConfig and classify = ?c and a = 2 and e = 0]
  show ?thesis unfolding m by simp
qed

section \<open>Middleware: properties\<close>

text \<open>
  Claim C9. \<^verbatim>\<open>CircuitBreaker.reset\<close> gives, from any state, a CLOSED breaker of the same
  configuration with failure count, success count and half-open calls zero and no last
  failure time. \<^verbatim>\<open>ProductionMiddleware.reset\<close> resets the breaker, replaces the metrics
  by a fresh object whose fields are all zero or empty, and leaves the rate limiter (both
  logs and its configuration) as it was.
\<close>

theorem C9_reset:
  "reset cb =
     \<lparr>cb_config = cb_config cb, cb_state = CLOSED, failure_count = 0, success_count = 0,
      last_failure_time = None, half_open_calls = 0\<rparr>
   \<and> circuit_breaker (mw_reset m) = reset (circuit_breaker m)
   \<and> metrics (mw_reset m) =
       \<lparr>total_requests = 0, successful_requests = 0, failed_requests = 0,
        retried_requests = 0, circuit_breaker_rejections = 0, rate_limit_rejections = 0,
        total_tokens_sent = 0, total_tokens_received = 0, total_cost = 0,
        last_request_time = None, average_latency_ms = 0, latencies = []\<rparr>
   \<and> rate_limiter (mw_reset m) = rate_limiter m
   \<and> config (mw_reset m) = config m \<and> retry_handler (mw_reset m) = retry_handler m"
  by (simp add: reset_def mw_reset_def new_MiddlewareMetrics_def)



text \<open>
  An object that is not an \<^verbatim>\<open>Exception\<close> passes \<^verbatim>\<open>except Exception\<close>: it leaves
  \<^verbatim>\<open>execute\<close> with nothing recorded.
\<close>

lemma retry_loop_not_an_exception:
  assumes "func env (calls w) = Inl e"
    and "\<not> is_exception env e"
  shows "retry_loop env (attempt # rest) last_exception m w =
     (Inl (Propagated (Original e)), m, w\<lparr>ticks := Suc (ticks w), calls := Suc (calls w)\<rparr>)"
  using assms by (simp add: try_attempt_def time_time_def call_func_def)

lemma retry_loop_no_attempts:
  "retry_loop env [] None m w =
     (Inr None,
      m\<lparr>circuit_breaker := record_failure (clock env (ticks w)) (circuit_breaker m),
        metrics := (metrics m)\<lparr>failed_requests := failed_requests (metrics m) + 1\<rparr>\<rparr>,
      w\<lparr>ticks := Suc (ticks w)\<rparr>)"
  by (simp add: time_time_def on_failure_def)

lemma execute_admitted:
  assumes "enabled (config m)"
    and "can_execute (clock env (ticks w)) (circuit_breaker m) = (True, cb1)"
    and "can_proceed (arith env) (clock env (Suc (ticks w))) est (rate_limiter m)
         = (Inr (True, wt), rl1)"
  shows "execute env est m w =
     retry_loop env [0 .. max_retries (retry_cfg (config m))] None
       (m\<lparr>metrics := (metrics m)\<lparr>total_requests := total_requests (metrics m) + 1\<rparr>,
          circuit_breaker := cb1, rate_limiter := rl1\<rparr>)
       (w\<lparr>ticks := Suc (Suc (ticks w))\<rparr>)"
  using assms by (simp add: execute_def time_time_def)

text \<open>
  With a negative \<^verbatim>\<open>max_retries\<close> the loop has no attempt: the operation is not
  called and \<^verbatim>\<open>execute\<close> returns \<^verbatim>\<open>None\<close>.
\<close>

lemma execute_without_attempts:
  assumes "enabled (config m)"
    and "can_execute (clock env (ticks w)) (circuit_breaker m) = (True, cb1)"
    and "can_proceed (arith env) (clock env (Suc (ticks w))) est (rate_limiter m)
         = (Inr (True, wt), rl1)"
    and "max_retries (retry_cfg (config m)) < 0"
  shows "fst (execute env est m w) = Inr None
       \<and> calls (snd (snd (execute env est m w))) = calls w"
  using assms(4)
  unfolding execute_admitted [OF assms(1-3)]
  by (simp add: on_failure_def time_time_def)



end
